theory Spec2Isabelle
  imports Complex_Main "HOL-Library.Multiset" "HOL-Library.Product_Lexorder"
begin

section \<open>Data model of the notebook\<close>

text \<open>
  The notebook \<^verbatim>\<open>chat.ipynb\<close> builds a retrieval pipeline out of library objects and four
  pieces of code of its own: the reranking function \<^verbatim>\<open>query_doc\<close>, the retriever class
  \<^verbatim>\<open>CrossEncoderRerankingRetriever\<close>, the generator \<^verbatim>\<open>callModel\<close> and the function
  \<^verbatim>\<open>answer_query\<close> with the \<^verbatim>\<open>while True\<close> loop around it.

  Python exceptions are values of the type \<open>error\<close>. \<open>TypeError\<close> is what the
  interpreter raises for \<^verbatim>\<open>Document < Document\<close>, \<open>EOFError\<close> is what \<^verbatim>\<open>input\<close> raises on
  an exhausted standard input, and \<open>CollaboratorError\<close> stands for whatever one of the
  library collaborators (retrievers, generation backend) raises.
\<close>

datatype error = TypeError | EOFError | CollaboratorError string

text \<open>
  A langchain \<^verbatim>\<open>Document\<close> has an optional id, a metadata dictionary and its text. The
  notebook reads \<^verbatim>\<open>page_content\<close> only; the other fields matter because \<^verbatim>\<open>==\<close> on documents
  compares all fields. The metadata type is left open: HOL equality on \<open>'m\<close> stands
  for equality of the dictionaries.
\<close>

record 'm document =
  doc_id :: "string option"
  metadata :: 'm
  page_content :: string

section \<open>The reranker \<^verbatim>\<open>query_doc\<close>\<close>

text \<open>
  \<^verbatim>\<open>
  def query_doc(query, docs, top_k = 10):
      query_doc_pair = [(query, doc.page_content)for doc in docs]
      result_cross_encodere = cross_encoder.predict(query_doc_pair)
      sorted_docs = [doc for _, doc in sorted(zip(result_cross_encodere, docs), reverse=True)]
      return sorted_docs[:top_k]
  \<close>
  \<^verbatim>\<open>sorted\<close> is given no key, so it compares the \<^verbatim>\<open>(score, doc)\<close> tuples themselves.
  Python compares tuples by the first position where they differ under \<^verbatim>\<open>==\<close>, and
  applies \<^verbatim>\<open><\<close> there. Scores are compared as numbers; documents define \<^verbatim>\<open>==\<close> but no
  \<^verbatim>\<open><\<close>, so reaching the second position with two unequal documents raises
  \<^verbatim>\<open>TypeError\<close>. Two equal tuples are not less than one another.
  The scores are of any linearly ordered type (floating-point NaN is outside the model).
\<close>

fun tuple_lt :: "('s::linorder \<times> 'd) \<Rightarrow> ('s \<times> 'd) \<Rightarrow> error + bool" where
  "tuple_lt (s1, d1) (s2, d2) =
     (if s1 \<noteq> s2 then Inr (s1 < s2)
      else if d1 = d2 then Inr False
      else Inl TypeError)"

text \<open>
  \<^verbatim>\<open>list.sort\<close> is a stable ascending sort that only ever asks \<^verbatim>\<open>y < x\<close>. It is modelled
  by a stable insertion sort over the fallible comparison: an exception of the
  comparison aborts the sort. Which pairs a sorting algorithm compares depends on the
  algorithm, its outcome does not (lemma \<open>list_sort_outcome\<close> below): the sort raises
  exactly when two entries tie on the score and hold unequal documents, and otherwise
  returns the entries in ascending score order.
\<close>

fun insert_sorted :: "('s::linorder \<times> 'd) \<Rightarrow> ('s \<times> 'd) list \<Rightarrow> error + ('s \<times> 'd) list" where
  "insert_sorted x [] = Inr [x]"
| "insert_sorted x (y # ys) =
     (case tuple_lt y x of
        Inl e \<Rightarrow> Inl e
      | Inr True \<Rightarrow> (case insert_sorted x ys of Inl e \<Rightarrow> Inl e | Inr zs \<Rightarrow> Inr (y # zs))
      | Inr False \<Rightarrow> Inr (x # y # ys))"

fun list_sort :: "('s::linorder \<times> 'd) list \<Rightarrow> error + ('s \<times> 'd) list" where
  "list_sort [] = Inr []"
| "list_sort (x # xs) =
     (case list_sort xs of Inl e \<Rightarrow> Inl e | Inr ys \<Rightarrow> insert_sorted x ys)"

text \<open>
  \<^verbatim>\<open>sorted(it, reverse=True)\<close>: CPython reverses the list, sorts it ascending and reverses
  the result, which keeps the sort stable.
\<close>

definition sorted_reverse :: "('s::linorder \<times> 'd) list \<Rightarrow> error + ('s \<times> 'd) list" where
  "sorted_reverse xs =
     (case list_sort (rev xs) of Inl e \<Rightarrow> Inl e | Inr ys \<Rightarrow> Inr (rev ys))"

text \<open>
  The slice \<^verbatim>\<open>xs[:k]\<close> for an integer \<open>k\<close>: the first \<open>k\<close> elements when \<open>k\<close> is not
  negative, all but the last \<open>-k\<close> elements when it is.
\<close>

definition slice_to :: "int \<Rightarrow> 'a list \<Rightarrow> 'a list" where
  "slice_to k xs =
     (if 0 \<le> k then take (nat k) xs else take (nat (int (length xs) + k)) xs)"

text \<open>
  The cross-encoder is a collaborator: \<open>predict q t\<close> is the score that
  \<^verbatim>\<open>cross_encoder.predict\<close> gives the pair \<open>(q, t)\<close>; the library returns the scores in
  the order of the pairs.
\<close>

definition query_doc ::
  "(string \<Rightarrow> string \<Rightarrow> 's::linorder) \<Rightarrow> string \<Rightarrow> 'm document list \<Rightarrow> int
     \<Rightarrow> error + 'm document list" where
  "query_doc predict query docs top_k =
     (let query_doc_pair = map (\<lambda>doc. (query, page_content doc)) docs;
          result_cross_encodere = map (\<lambda>(q, t). predict q t) query_doc_pair
      in case sorted_reverse (zip result_cross_encodere docs) of
           Inl e \<Rightarrow> Inl e
         | Inr sorted_pairs \<Rightarrow> Inr (slice_to top_k (map snd sorted_pairs)))"

text \<open>
  Two entries conflict when they tie on the score and hold unequal documents.
\<close>

definition tie_conflict :: "('s \<times> 'd) list \<Rightarrow> bool" where
  "tie_conflict xs =
     list_ex (\<lambda>p. list_ex (\<lambda>q. fst p = fst q \<and> snd p \<noteq> snd q) xs) xs"

text \<open>The same for the candidates of one call of \<open>query_doc\<close>.\<close>

definition score_tie ::
  "(string \<Rightarrow> string \<Rightarrow> 's) \<Rightarrow> string \<Rightarrow> 'm document list \<Rightarrow> bool" where
  "score_tie predict query docs =
     tie_conflict (zip (map (\<lambda>doc. predict query (page_content doc)) docs) docs)"

section \<open>The retriever class \<^verbatim>\<open>CrossEncoderRerankingRetriever\<close>\<close>

text \<open>
  \<^verbatim>\<open>
  class CrossEncoderRerankingRetriever(BaseRetriever, BaseModel):
      base_retriever: BaseRetriever
      reranker: callable

      def get_relevant_documents(self, query, top_k=10):
          retrieved_docs = self.base_retriever.get_relevant_documents(query, top_k=20)
          reranked_docs = self.reranker(query, retrieved_docs, top_k=top_k)
          return reranked_docs
  \<close>
  The base retriever is a collaborator that may raise; an exception of either call
  leaves the method.
\<close>

record 'm reranking_retriever =
  base_retriever :: "string \<Rightarrow> int \<Rightarrow> error + 'm document list"
  reranker :: "string \<Rightarrow> 'm document list \<Rightarrow> int \<Rightarrow> error + 'm document list"

definition get_relevant_documents ::
  "'m reranking_retriever \<Rightarrow> string \<Rightarrow> int \<Rightarrow> error + 'm document list" where
  "get_relevant_documents self query top_k =
     (case base_retriever self query 20 of
        Inl e \<Rightarrow> Inl e
      | Inr retrieved_docs \<Rightarrow> reranker self query retrieved_docs top_k)"

section \<open>The generation backend and \<^verbatim>\<open>callModel\<close>\<close>

text \<open>
  A chat message is a dictionary with the keys \<^verbatim>\<open>role\<close> and \<^verbatim>\<open>content\<close>; a unit of the
  backend's stream is a dictionary with the keys \<^verbatim>\<open>done\<close> and \<^verbatim>\<open>message\<close>. The stream is
  consumed one unit at a time; pulling a unit may raise instead (\<open>Inl\<close>).
\<close>

record message =
  role :: string
  content :: string

record chunk =
  chunk_done :: bool
  chunk_message :: message

type_synonym response = "(error + chunk) list"

text \<open>
  The library objects the notebook creates once and uses in every turn:
  \<^verbatim>\<open>combined_retriever\<close> (the \<^verbatim>\<open>EnsembleRetriever\<close> over the semantic and the BM25 retriever),
  \<^verbatim>\<open>cross_encoder\<close> and the \<^verbatim>\<open>ollama.chat\<close> streaming call.
\<close>

record ('m, 's) collaborators =
  combined_retriever :: "string \<Rightarrow> int \<Rightarrow> error + 'm document list"
  cross_encoder :: "string \<Rightarrow> string \<Rightarrow> 's"
  ollama_chat :: "message list \<Rightarrow> response"

text \<open>
  \<^verbatim>\<open>
  cross_encoder_retriever = CrossEncoderRerankingRetriever(
      base_retriever=combined_retriever,
      reranker=query_doc
  )
  \<close>
\<close>

definition cross_encoder_retriever ::
  "('m, 's::linorder) collaborators \<Rightarrow> 'm reranking_retriever" where
  "cross_encoder_retriever env =
     \<lparr>base_retriever = combined_retriever env, reranker = query_doc (cross_encoder env)\<rparr>"

definition system_prompt :: string where
  \<open>system_prompt =
     ''\<newline>You are an AI assistant tasked with providing detailed answers based solely on the given context. Your goal is to analyze the information provided and formulate a comprehensive, well-structured response to the question.\<newline>\<newline>context will be passed as "Context:"\<newline>user question will be passed as "Question:"\<newline>\<newline>To answer the question:\<newline>1. Thoroughly analyze the context, identifying key information relevant to the question.\<newline>2. Organize your thoughts and plan your response to ensure a logical flow of information.\<newline>3. Formulate a detailed answer that directly addresses the question, using only the information provided in the context.\<newline>4. Ensure your answer is comprehensive, covering all relevant aspects found in the context.\<newline>5. If the context doesn't contain sufficient information to fully answer the question, state this clearly in your response.\<newline>\<newline>Format your response as follows:\<newline>1. Use clear, concise language.\<newline>2. Organize your answer into paragraphs for readability.\<newline>3. Use bullet points or numbered lists where appropriate to break down complex information.\<newline>4. If relevant, include any headings or subheadings to structure your response.\<newline>5. Ensure proper grammar, punctuation, and spelling throughout your answer.\<newline>\<newline>Important: Base your entire response solely on the information provided in the context. Do not include any external knowledge or assumptions not present in the given text.\<newline>''\<close>

text \<open>
  \<^verbatim>\<open>
  for chunk in response:
      if chunk["done"] == False:
          yield chunk["message"]["content"]
      else:
          break
  \<close>
  A run of the generator to its end: the strings it yielded in order, the exception
  that ended it if any, and the part of the stream it never pulled.
\<close>

record generator_run =
  yielded :: "string list"
  raised :: "error option"
  unread :: response

fun callModel_loop :: "response \<Rightarrow> generator_run" where
  "callModel_loop [] = \<lparr>yielded = [], raised = None, unread = []\<rparr>"
| "callModel_loop (Inl e # rest) = \<lparr>yielded = [], raised = Some e, unread = rest\<rparr>"
| "callModel_loop (Inr chunk # rest) =
     (if chunk_done chunk = False
      then (let run = callModel_loop rest
            in run\<lparr>yielded := content (chunk_message chunk) # yielded run\<rparr>)
      else \<lparr>yielded = [], raised = None, unread = rest\<rparr>)"

text \<open>
  \<^verbatim>\<open>
  def callModel(context, prompt):
      response = ollama.chat(model = "llama3.2", stream = True, messages = [
              {"role" : "system", "content" : system_prompt},
              {"role" : "user", "content" : f"Context{context}, Question{prompt}",},
          ])
  \<close>
\<close>

definition chat_messages :: "string \<Rightarrow> string \<Rightarrow> message list" where
  "chat_messages context prompt =
     [\<lparr>role = ''system'', content = system_prompt\<rparr>,
      \<lparr>role = ''user'', content = ''Context'' @ context @ '', Question'' @ prompt\<rparr>]"

definition callModel :: "('m, 's) collaborators \<Rightarrow> string \<Rightarrow> string \<Rightarrow> generator_run" where
  "callModel env context prompt = callModel_loop (ollama_chat env (chat_messages context prompt))"

section \<open>\<^verbatim>\<open>answer_query\<close> and the conversation loop\<close>

text \<open>\<^verbatim>\<open>sep.join(xs)\<close> on a list of strings.\<close>

fun join :: "string \<Rightarrow> string list \<Rightarrow> string" where
  "join sep [] = []"
| "join sep [x] = x"
| "join sep (x # y # ys) = x @ sep @ join sep (y # ys)"

text \<open>
  The context handed to the model:
  \<^verbatim>\<open>context = "\n".join([doc.page_content for doc in top_docs])\<close>.
\<close>

definition context_text :: "'m document list \<Rightarrow> string" where
  "context_text top_docs = join ''\<newline>'' (map page_content top_docs)"

text \<open>
  What the program writes to the terminal, one event per \<^verbatim>\<open>print\<close> or \<^verbatim>\<open>input\<close> call:
  \<open>Prompt\<close> is \<^verbatim>\<open>input("You: ")\<close>, \<open>Question q\<close> the line \<^verbatim>\<open>Question: q\<close>, \<open>AnswerLabel\<close>
  the label \<^verbatim>\<open>Answer:\<close>, \<open>AnswerChunk c\<close> one streamed piece of the answer, \<open>AnswerEnd\<close> the
  closing \<^verbatim>\<open>print("\n")\<close> and \<open>SessionEnded\<close> the farewell line. The source prints a
  pictograph in front of each label; the events, and the quotations of the source below,
  leave the pictographs out.
\<close>

datatype event =
  Prompt | Question string | AnswerLabel | AnswerChunk string | AnswerEnd | SessionEnded

text \<open>
  \<^verbatim>\<open>
  def answer_query(query):
      top_docs = cross_encoder_retriever.get_relevant_documents(query, top_k=10)
      context = "\n".join([doc.page_content for doc in top_docs])
      print(f"\nQuestion: {query}")
      print("Answer:", end=" ", flush=True)
      for chunk in callModel(context, query):
          print(chunk, end="", flush=True)
      print("\n")
  \<close>
  The result is what was printed and the exception that left the function, if any.
\<close>

definition answer_query ::
  "('m, 's::linorder) collaborators \<Rightarrow> string \<Rightarrow> event list \<times> error option" where
  "answer_query env query =
     (case get_relevant_documents (cross_encoder_retriever env) query 10 of
        Inl e \<Rightarrow> ([], Some e)
      | Inr top_docs \<Rightarrow>
          (let context = context_text top_docs;
               run = callModel env context query
           in case raised run of
                Some e \<Rightarrow> ([Question query, AnswerLabel] @ map AnswerChunk (yielded run), Some e)
              | None \<Rightarrow>
                  ([Question query, AnswerLabel] @ map AnswerChunk (yielded run) @ [AnswerEnd],
                   None)))"

text \<open>
  \<^verbatim>\<open>str.lower\<close>, on the ASCII letters; every other character is left as it is.
\<close>

definition lower_char :: "char \<Rightarrow> char" where
  "lower_char c =
     (let n = (of_char c :: nat) in if 65 \<le> n \<and> n \<le> 90 then char_of (n + 32) else c)"

definition lower :: "string \<Rightarrow> string" where
  "lower s = map lower_char s"

text \<open>
  \<^verbatim>\<open>
  while True:
      user_input = input("You: ")
      if user_input.lower() in ["quit", "exit"]:
          print("Chatbot session ended.")
          break
      answer_query(user_input)
  \<close>
  The loop runs over the lines standard input holds. It ends by \<^verbatim>\<open>break\<close>, after which the
  program is over, or by an exception: one that leaves \<^verbatim>\<open>answer_query\<close>, or the \<^verbatim>\<open>EOFError\<close> of
  \<^verbatim>\<open>input\<close> when no line is left. Nothing in the notebook catches an exception.
\<close>

datatype outcome = Ended | Raised error

fun conversation_loop ::
  "('m, 's::linorder) collaborators \<Rightarrow> string list \<Rightarrow> event list \<times> outcome" where
  "conversation_loop env [] = ([Prompt], Raised EOFError)"
| "conversation_loop env (user_input # rest) =
     (if lower user_input \<in> set [''quit'', ''exit'']
      then ([Prompt, SessionEnded], Ended)
      else (case answer_query env user_input of
              (printed, Some e) \<Rightarrow> (Prompt # printed, Raised e)
            | (printed, None) \<Rightarrow>
                (let (later, result) = conversation_loop env rest
                 in (Prompt # printed @ later, result))))"

text \<open>
  The exit status of the interpreter: 0 when the program runs to its end, 1 when an
  exception is not caught.
\<close>

fun exit_code :: "outcome \<Rightarrow> nat" where
  "exit_code Ended = 0"
| "exit_code (Raised e) = 1"

section \<open>Rank fusion\<close>

text \<open>
  The notebook fuses the two retrievers with langchain's \<^verbatim>\<open>EnsembleRetriever\<close>, whose code
  is not part of the repository. The fusion is therefore written down from the
  specification's description of RankFusion.
\<close>

record 'id scored_result =
  chunkId :: 'id
  score :: rat
  rank :: nat

datatype fusion_error = ConfigurationError

text \<open>
  Modelled from the spec: the contribution of one retriever's list to the accumulator
  of chunk \<open>c\<close>, \<open>w / (i + 1)\<close> for an appearance at the 0-based rank \<open>i\<close> and 0 when the
  chunk is absent. The code of the fusion is missing from the sources.
\<close>

definition contribution :: "rat \<Rightarrow> 'id scored_result list \<Rightarrow> 'id \<Rightarrow> rat" where
  "contribution w results c =
     sum_list (map (\<lambda>(i, r). if chunkId r = c then w / of_nat (i + 1) else 0)
                   (enumerate 0 results))"

text \<open>
  Modelled from the spec: the number of lists a chunk is present in, and its rank in
  the semantic list (the length of that list when it is absent, so that absent chunks
  come after present ones). The code of the fusion is missing from the sources.
\<close>

definition presence :: "'id scored_result list \<Rightarrow> 'id scored_result list \<Rightarrow> 'id \<Rightarrow> int" where
  "presence semantic lexical c =
     (if c \<in> set (map chunkId semantic) then 1 else 0)
     + (if c \<in> set (map chunkId lexical) then 1 else 0)"

definition semantic_rank :: "'id scored_result list \<Rightarrow> 'id \<Rightarrow> nat" where
  "semantic_rank semantic c = length (takeWhile (\<lambda>r. chunkId r \<noteq> c) semantic)"

text \<open>
  Modelled from the spec: weighted reciprocal-rank fusion of the semantic and the
  lexical list (the \<^verbatim>\<open>EnsembleRetriever\<close> the notebook calls is library code, missing from
  the sources). Weights must be non-negative and are normalised to sum to 1; weights
  that are all zero are a \<open>ConfigurationError\<close>. The fused list holds every chunk id of
  either list once, sorted by descending accumulated score, ties broken by presence in
  more lists, then semantic rank, then chunk id; ranks are dense and 0-based.
\<close>

definition rank_fusion ::
  "rat \<Rightarrow> rat \<Rightarrow> 'id::linorder scored_result list \<Rightarrow> 'id scored_result list
     \<Rightarrow> fusion_error + 'id scored_result list" where
  "rank_fusion w_s w_l semantic lexical =
     (if w_s < 0 \<or> w_l < 0 \<or> w_s + w_l = 0 then Inl ConfigurationError
      else
        (let total = w_s + w_l;
             acc = (\<lambda>c. contribution (w_s / total) semantic c
                        + contribution (w_l / total) lexical c);
             ids = remdups (map chunkId semantic @ map chunkId lexical);
             ordered = sort_key (\<lambda>c. (- acc c, - presence semantic lexical c,
                                       semantic_rank semantic c, c)) ids
         in Inr (map (\<lambda>(i, c). \<lparr>chunkId = c, score = acc c, rank = i\<rparr>)
                     (enumerate 0 ordered))))"

section \<open>Vocabulary of the statements and example data\<close>

text \<open>
  A stream item keeps the generator going when it is a unit whose \<^verbatim>\<open>done\<close> is false; the
  text of an item is the message content of a unit.
\<close>

fun streaming :: "error + chunk \<Rightarrow> bool" where
  "streaming (Inr c) = (chunk_done c = False)"
| "streaming (Inl e) = False"

fun unit_text :: "error + chunk \<Rightarrow> string" where
  "unit_text (Inr c) = content (chunk_message c)"
| "unit_text (Inl e) = []"

text \<open>Example documents (the metadata is a page number), stream units and collaborators.\<close>

definition mk_doc :: "nat \<Rightarrow> string \<Rightarrow> nat document" where
  "mk_doc page text = \<lparr>doc_id = None, metadata = page, page_content = text\<rparr>"

definition mk_chunk :: "bool \<Rightarrow> string \<Rightarrow> chunk" where
  "mk_chunk d text =
     \<lparr>chunk_done = d, chunk_message = \<lparr>role = ''assistant'', content = text\<rparr>\<rparr>"

definition length_score :: "string \<Rightarrow> string \<Rightarrow> int" where
  "length_score q t = int (length t)"

definition example_env :: "(nat, int) collaborators" where
  "example_env =
     \<lparr>combined_retriever = (\<lambda>q k. Inr [mk_doc 1 ''be'', mk_doc 2 ''alpha'']),
      cross_encoder = length_score,
      ollama_chat = (\<lambda>msgs. [Inr (mk_chunk False ''Hel''), Inr (mk_chunk False ''lo''),
                               Inr (mk_chunk True ''!''), Inr (mk_chunk False ''more'')])\<rparr>"

definition failing_env :: "(nat, int) collaborators" where
  "failing_env =
     \<lparr>combined_retriever = (\<lambda>q k. Inl (CollaboratorError ''unreachable'')),
      cross_encoder = length_score,
      ollama_chat = (\<lambda>msgs. [])\<rparr>"

text \<open>
  A retriever's result list over the given chunk ids, best first, with dense ranks.
\<close>

definition mk_results :: "nat list \<Rightarrow> nat scored_result list" where
  "mk_results ids =
     map (\<lambda>(i, c). \<lparr>chunkId = c, score = 1 / of_nat (i + 1), rank = i\<rparr>) (enumerate 0 ids)"



section \<open>Outcome of the sort\<close>

lemma tie_conflict_iff:
  "tie_conflict xs \<longleftrightarrow> (\<exists>p \<in> set xs. \<exists>q \<in> set xs. fst p = fst q \<and> snd p \<noteq> snd q)"
  by (simp add: tie_conflict_def list_ex_iff)

lemma tie_conflict_rev: "tie_conflict (rev xs) = tie_conflict xs"
  by (simp add: tie_conflict_iff)

lemma tie_conflict_set: "set xs = set ys \<Longrightarrow> tie_conflict xs = tie_conflict ys"
  by (simp add: tie_conflict_iff)

lemma tie_conflict_Cons:
  "tie_conflict (x # xs) \<longleftrightarrow>
     tie_conflict xs \<or> (\<exists>y \<in> set xs. fst y = fst x \<and> snd y \<noteq> snd x)"
proof
  assume "tie_conflict (x # xs)"
  then obtain p q where pq: "p \<in> set (x # xs)" "q \<in> set (x # xs)" "fst p = fst q" "snd p \<noteq> snd q"
    unfolding tie_conflict_iff by blast
  show "tie_conflict xs \<or> (\<exists>y \<in> set xs. fst y = fst x \<and> snd y \<noteq> snd x)"
  proof (cases "p = x")
    case px: True
    with pq have "q \<in> set xs" "fst q = fst x" "snd q \<noteq> snd x" by auto
    then show ?thesis by blast
  next
    case pxs: False
    with pq have pin: "p \<in> set xs" by simp
    show ?thesis
    proof (cases "q = x")
      case True
      with pq pin have "p \<in> set xs" "fst p = fst x" "snd p \<noteq> snd x" by auto
      then show ?thesis by blast
    next
      case False
      with pq have "q \<in> set xs" by simp
      with pin pq have "tie_conflict xs" unfolding tie_conflict_iff by blast
      then show ?thesis ..
    qed
  qed
next
  assume "tie_conflict xs \<or> (\<exists>y \<in> set xs. fst y = fst x \<and> snd y \<noteq> snd x)"
  then show "tie_conflict (x # xs)"
  proof
    assume "tie_conflict xs"
    then obtain p q where "p \<in> set xs" "q \<in> set xs" "fst p = fst q" "snd p \<noteq> snd q"
      unfolding tie_conflict_iff by blast
    then have "p \<in> set (x # xs)" "q \<in> set (x # xs)" "fst p = fst q" "snd p \<noteq> snd q"
      by simp_all
    then show ?thesis unfolding tie_conflict_iff by blast
  next
    assume "\<exists>y \<in> set xs. fst y = fst x \<and> snd y \<noteq> snd x"
    then obtain y where "y \<in> set xs" "fst y = fst x" "snd y \<noteq> snd x" by blast
    then have "y \<in> set (x # xs)" "x \<in> set (x # xs)" "fst y = fst x" "snd y \<noteq> snd x"
      by simp_all
    then show ?thesis unfolding tie_conflict_iff by blast
  qed
qed

lemma insert_sorted_ok:
  assumes "sorted (map fst ys)"
    and "\<forall>y \<in> set ys. fst y = fst x \<longrightarrow> snd y = snd x"
  shows "insert_sorted x ys = Inr (insort_key fst x ys)"
  using assms
proof (induction ys)
  case Nil
  then show ?case by simp
next
  case (Cons y ys)
  obtain s d where x: "x = (s, d)" by (cases x)
  obtain s' d' where y: "y = (s', d')" by (cases y)
  show ?case
  proof (cases "s' = s")
    case True
    with Cons.prems x y have "d' = d" by simp
    with True x y show ?thesis by simp
  next
    case False
    show ?thesis
    proof (cases "s' < s")
      case True
      from Cons have "insert_sorted x ys = Inr (insort_key fst x ys)" by simp
      with True False x y show ?thesis by simp
    next
      case ge: False
      with False x y show ?thesis by simp
    qed
  qed
qed

lemma insert_sorted_raises:
  assumes "sorted (map fst ys)"
    and "\<not> tie_conflict ys"
    and "\<exists>y \<in> set ys. fst y = fst x \<and> snd y \<noteq> snd x"
  shows "insert_sorted x ys = Inl TypeError"
  using assms
proof (induction ys)
  case Nil
  then show ?case by simp
next
  case (Cons y ys)
  obtain s d where x: "x = (s, d)" by (cases x)
  obtain s' d' where y: "y = (s', d')" by (cases y)
  from Cons.prems(2) have nc: "\<not> tie_conflict ys"
    and ny: "\<forall>z \<in> set ys. fst z = fst y \<longrightarrow> snd z = snd y"
    by (simp_all add: tie_conflict_Cons)
  from Cons.prems(3) obtain z where z: "z \<in> set (y # ys)" "fst z = fst x" "snd z \<noteq> snd x"
    by blast
  show ?case
  proof (cases "s' = s")
    case True
    have "d' \<noteq> d"
    proof
      assume "d' = d"
      with True x y have xy: "x = y" by simp
      with z have "z \<in> set ys" by auto
      with ny z xy show False by simp
    qed
    with True x y show ?thesis by simp
  next
    case False
    with z x y have zin: "z \<in> set ys" by auto
    show ?thesis
    proof (cases "s' < s")
      case True
      have "sorted (map fst ys)" using Cons.prems(1) by simp
      moreover note nc
      moreover have "\<exists>y \<in> set ys. fst y = fst x \<and> snd y \<noteq> snd x"
        using zin z by blast
      ultimately have "insert_sorted x ys = Inl TypeError" by (rule Cons.IH)
      with True False x y show ?thesis by simp
    next
      case ge: False
      from Cons.prems(1) zin have "fst y \<le> fst z" by simp
      with x y z ge False show ?thesis by simp
    qed
  qed
qed

lemma list_sort_outcome:
  "list_sort xs = (if tie_conflict xs then Inl TypeError else Inr (sort_key fst xs))"
proof (induction xs)
  case Nil
  then show ?case by (simp add: tie_conflict_def)
next
  case (Cons x xs)
  show ?case
  proof (cases "tie_conflict xs")
    case True
    then have "tie_conflict (x # xs)" by (simp add: tie_conflict_Cons)
    with True Cons show ?thesis by simp
  next
    case False
    with Cons have sorted_xs: "list_sort xs = Inr (sort_key fst xs)" by simp
    have srt: "sorted (map fst (sort_key fst xs))" by simp
    have nc: "\<not> tie_conflict (sort_key fst xs)"
      using False tie_conflict_set [of "sort_key fst xs" xs] by simp
    show ?thesis
    proof (cases "tie_conflict (x # xs)")
      case True
      with False have "\<exists>y \<in> set xs. fst y = fst x \<and> snd y \<noteq> snd x"
        by (simp add: tie_conflict_Cons)
      then have "\<exists>y \<in> set (sort_key fst xs). fst y = fst x \<and> snd y \<noteq> snd x" by simp
      with srt nc have "insert_sorted x (sort_key fst xs) = Inl TypeError"
        by (rule insert_sorted_raises)
      with True sorted_xs show ?thesis by simp
    next
      case nt: False
      then have "\<forall>y \<in> set (sort_key fst xs). fst y = fst x \<longrightarrow> snd y = snd x"
        by (simp add: tie_conflict_Cons)
      with srt have "insert_sorted x (sort_key fst xs) = Inr (insort_key fst x (sort_key fst xs))"
        by (rule insert_sorted_ok)
      with nt sorted_xs show ?thesis by simp
    qed
  qed
qed

lemma sorted_reverse_outcome:
  "sorted_reverse xs =
     (if tie_conflict xs then Inl TypeError else Inr (rev (sort_key fst (rev xs))))"
  by (simp add: sorted_reverse_def list_sort_outcome tie_conflict_rev)

lemma query_doc_outcome:
  "query_doc ce query docs top_k =
     (if score_tie ce query docs then Inl TypeError
      else Inr (slice_to top_k (map snd (rev (sort_key fst
             (rev (zip (map (\<lambda>doc. ce query (page_content doc)) docs) docs)))))))"
  by (simp add: query_doc_def score_tie_def sorted_reverse_outcome comp_def)

section \<open>The reranker: length, clamping and ties\<close>

lemma length_slice_to:
  "int (length (slice_to k xs)) =
     (if 0 \<le> k then min k (int (length xs)) else max 0 (int (length xs) + k))"
proof (cases "0 \<le> k")
  case True
  then show ?thesis by (simp add: slice_to_def min_def) linarith
next
  case False
  then show ?thesis by (simp add: slice_to_def max_def min_def) linarith
qed

lemma slice_to_all: "int (length xs) \<le> k \<Longrightarrow> slice_to k xs = xs"
  by (simp add: slice_to_def)

lemma map_snd_zip_map: "map snd (zip (map f xs) xs) = xs"
  by (induction xs) simp_all

lemma map_fst_zip_map: "map fst (zip (map f xs) xs) = map f xs"
  by (induction xs) simp_all

text \<open>
  The documents in descending score order, as \<open>query_doc\<close> has them before the slice.
\<close>

lemma sorted_docs_length:
  "length (map snd (rev (sort_key fst (rev (zip (map f docs) docs))))) = length docs"
  by simp

lemma sorted_docs_mset:
  "mset (map snd (rev (sort_key fst (rev (zip (map f docs) docs))))) = mset docs"
proof -
  have "mset (map snd (rev (sort_key fst (rev (zip (map f docs) docs)))))
        = image_mset snd (mset (zip (map f docs) docs))"
    by simp
  also have "\<dots> = mset (map snd (zip (map f docs) docs))" by (simp only: mset_map)
  also have "\<dots> = mset docs" by (simp only: map_snd_zip_map)
  finally show ?thesis .
qed

lemma sorted_docs_descending:
  "sorted (rev (map f (map snd (rev (sort_key fst (rev (zip (map f docs) docs)))))))"
proof -
  let ?ps = "rev (sort_key fst (rev (zip (map f docs) docs)))"
  have "\<forall>p \<in> set (zip (map f docs) docs). fst p = f (snd p)"
    by (induction docs) auto
  then have "\<forall>p \<in> set ?ps. f (snd p) = fst p" by simp
  then have "map f (map snd ?ps) = map fst ?ps" by simp
  then have "rev (map f (map snd ?ps)) = map fst (sort_key fst (rev (zip (map f docs) docs)))"
    by (simp add: rev_map)
  then show ?thesis by simp
qed

text \<open>
  Whenever no two unequal candidates tie on the score, \<open>query_doc\<close> returns a list. Its
  length is \<open>min top_k (len candidates)\<close> for a \<open>top_k\<close> that is not negative, the only
  kind the notebook passes; the slice of a negative \<open>top_k\<close> drops that many candidates
  from the end.
\<close>

lemma query_doc_length:
  assumes "\<not> score_tie predict query docs"
  shows "\<exists>out. query_doc predict query docs top_k = Inr out \<and>
           int (length out) =
             (if 0 \<le> top_k then min top_k (int (length docs))
              else max 0 (int (length docs) + top_k))"
  using assms by (simp add: query_doc_outcome length_slice_to)

text \<open>
  For a \<open>top_k\<close> that is not negative, the call returns a list of length
  \<open>min top_k (len candidates)\<close> exactly when no two unequal candidates tie on the score.
\<close>

lemma query_doc_length_iff:
  assumes "0 \<le> top_k"
  shows "(\<exists>out. query_doc predict query docs top_k = Inr out \<and>
            int (length out) = min top_k (int (length docs)))
         \<longleftrightarrow> \<not> score_tie predict query docs"
proof (cases "score_tie predict query docs")
  case True
  then have "query_doc predict query docs top_k = Inl TypeError"
    by (simp add: query_doc_outcome)
  with True show ?thesis by simp
next
  case False
  from query_doc_length [OF False, of top_k] assms False show ?thesis by simp
qed

text \<open>
  C2. Three candidates, the first and the third with the same text and different
  metadata, so with the same score from any scorer: with \<open>top_k = 2\<close> the output should
  have \<open>min 2 3 = 2\<close> elements, but \<open>sorted\<close> compares the two tied documents with \<^verbatim>\<open><\<close> and
  the call raises \<^verbatim>\<open>TypeError\<close>: there is no output sequence at all.
\<close>

theorem query_doc_length_tie_raises:
  "query_doc predict query [mk_doc 1 ''a'', mk_doc 2 ''b'', mk_doc 3 ''a''] 2 = Inl TypeError
   \<and> min 2 (int (length [mk_doc 1 ''a'', mk_doc 2 ''b'', mk_doc 3 ''a''])) = 2"
proof -
  have "score_tie predict query [mk_doc 1 ''a'', mk_doc 2 ''b'', mk_doc 3 ''a'']"
    by (simp add: score_tie_def tie_conflict_def mk_doc_def)
  then show ?thesis by (simp add: query_doc_outcome)
qed

text \<open>
  C3 (as amended). A \<open>top_k\<close> above the number of candidates is no error: whenever no two
  unequal candidates tie on the score, the call returns every candidate, in descending
  score order.
\<close>

theorem query_doc_clamps:
  assumes "int (length docs) < top_k"
    and "\<not> score_tie predict query docs"
  shows "\<exists>out. query_doc predict query docs top_k = Inr out \<and>
           length out = length docs \<and> mset out = mset docs \<and>
           sorted (rev (map (\<lambda>doc. predict query (page_content doc)) out))"
proof -
  let ?f = "\<lambda>doc. predict query (page_content doc)"
  let ?sorted_docs = "map snd (rev (sort_key fst (rev (zip (map ?f docs) docs))))"
  have len: "length ?sorted_docs = length docs" by (rule sorted_docs_length)
  with assms(1) have "slice_to top_k ?sorted_docs = ?sorted_docs"
    by (simp only: slice_to_all)
  with assms(2) have "query_doc predict query docs top_k = Inr ?sorted_docs"
    by (simp only: query_doc_outcome if_False)
  moreover have "mset ?sorted_docs = mset docs" by (rule sorted_docs_mset)
  moreover have "sorted (rev (map ?f ?sorted_docs))" by (rule sorted_docs_descending)
  ultimately show ?thesis using len by blast
qed

theorem query_doc_clamps_witness:
  "int (length [mk_doc 1 ''a'', mk_doc 2 ''ccc'']) < 10
   \<and> \<not> score_tie length_score ''q'' [mk_doc 1 ''a'', mk_doc 2 ''ccc'']
   \<and> (\<exists>out. query_doc length_score ''q'' [mk_doc 1 ''a'', mk_doc 2 ''ccc''] 10 = Inr out
             \<and> length out = 2)"
proof -
  have h1: "int (length [mk_doc 1 ''a'', mk_doc 2 ''ccc'']) < 10" by simp
  have h2: "\<not> score_tie length_score ''q'' [mk_doc 1 ''a'', mk_doc 2 ''ccc'']" by code_simp
  show ?thesis using h1 h2 query_doc_clamps [OF h1 h2] by auto
qed

text \<open>
  C3, as stated, fails: a call with one candidate and \<open>top_k = 10\<close> does not fail, it
  returns the one candidate.
\<close>

theorem query_doc_clamps_counterexample:
  "int (length [mk_doc 1 ''a'']) < 10
   \<and> query_doc length_score ''q'' [mk_doc 1 ''a''] 10 = Inr [mk_doc 1 ''a'']"
  by code_simp

text \<open>
  C4. Two candidates with the same text and different metadata get the same score from
  any scorer; \<open>sorted\<close> then compares the two documents with \<^verbatim>\<open><\<close>, and the call raises
  \<^verbatim>\<open>TypeError\<close> instead of returning them in their input order.
\<close>

theorem query_doc_tie_raises:
  "query_doc predict query [mk_doc 1 ''a'', mk_doc 2 ''a''] 10 = Inl TypeError"
  by (simp add: query_doc_def sorted_reverse_def mk_doc_def)


section \<open>The context handed to the model\<close>

lemma join_Cons: "join sep (x # xs) = (if xs = [] then x else x @ sep @ join sep xs)"
  by (cases xs) simp_all

lemma length_join:
  "length (join sep xs) = sum_list (map length xs) + length sep * (length xs - 1)"
  by (induction sep xs rule: join.induct) simp_all

lemma join_holds_element: "\<exists>pre post. join sep (xs @ y # ys) = pre @ y @ post"
proof (induction xs)
  case Nil
  have "join sep (y # ys) = [] @ y @ (if ys = [] then [] else sep @ join sep ys)"
    by (simp add: join_Cons)
  then show ?case by (simp only: append_Nil) blast
next
  case (Cons x xs)
  then obtain pre post where "join sep (xs @ y # ys) = pre @ y @ post" by blast
  then have "join sep ((x # xs) @ y # ys) = (x @ sep @ pre) @ y @ post"
    by (simp add: join_Cons)
  then show ?case by blast
qed

text \<open>
  C1 (as amended). The context is the join of all the reranked chunks: no chunk is left
  out and none is cut, whatever its length. Its length is the sum of the lengths of the
  chunks plus one delimiter between neighbours, and the text of every chunk occurs in
  it whole.
\<close>

theorem context_text_whole:
  "length (context_text docs)
     = sum_list (map (\<lambda>doc. length (page_content doc)) docs) + (length docs - 1)
   \<and> (\<forall>doc \<in> set docs. \<exists>pre post. context_text docs = pre @ page_content doc @ post)"
proof
  show "length (context_text docs)
          = sum_list (map (\<lambda>doc. length (page_content doc)) docs) + (length docs - 1)"
    by (simp add: context_text_def length_join comp_def)
next
  show "\<forall>doc \<in> set docs. \<exists>pre post. context_text docs = pre @ page_content doc @ post"
  proof
    fix doc assume "doc \<in> set docs"
    then obtain xs ys where "docs = xs @ doc # ys" by (auto simp: in_set_conv_decomp)
    then have "context_text docs
                 = join ''\<newline>'' (map page_content xs @ page_content doc # map page_content ys)"
      by (simp add: context_text_def)
    then show "\<exists>pre post. context_text docs = pre @ page_content doc @ post"
      using join_holds_element by metis
  qed
qed

theorem context_text_whole_witness:
  "length (context_text [mk_doc 1 ''ab'', mk_doc 2 ''cde'']) = 6
   \<and> (\<exists>pre post. context_text [mk_doc 1 ''ab'', mk_doc 2 ''cde''] = pre @ ''cde'' @ post)"
  using context_text_whole [of "[mk_doc 1 ''ab'', mk_doc 2 ''cde'']"]
  by (simp add: mk_doc_def)

text \<open>
  C1, as stated, fails: nothing bounds the context. One chunk of four characters gives
  a context of four characters, above a budget of three.
\<close>

theorem context_text_budget_counterexample:
  "\<not> length (context_text [mk_doc 1 ''abcd'']) \<le> 3"
  by (simp add: context_text_def mk_doc_def)

section \<open>Rank fusion\<close>

text \<open>
  C5. With valid weights the fusion returns a list, and its length is the number of
  distinct chunk ids of the two lists together; nothing caps it.
\<close>

theorem rank_fusion_length:
  assumes "0 \<le> w_s" and "0 \<le> w_l" and "w_s + w_l \<noteq> 0"
  shows "\<exists>fused. rank_fusion w_s w_l semantic lexical = Inr fused \<and>
           length fused = card (chunkId ` set semantic \<union> chunkId ` set lexical)"
proof -
  have "length (remdups (map chunkId semantic @ map chunkId lexical))
          = card (chunkId ` set semantic \<union> chunkId ` set lexical)"
    by (simp add: length_remdups_card_conv)
  with assms show ?thesis
    by (simp add: rank_fusion_def Let_def not_less)
qed

theorem rank_fusion_length_witness:
  "\<exists>fused. rank_fusion (7 / 10) (3 / 10)
              (mk_results [1, 2, 3, 4, 5]) (mk_results [4, 6, 5, 7, 8]) = Inr fused
           \<and> length fused = 8 \<and> map chunkId fused = [1, 4, 2, 5, 3, 6, 7, 8]"
proof -
  have c: "card (chunkId ` set (mk_results [1, 2, 3, 4, 5])
                 \<union> chunkId ` set (mk_results [4, 6, 5, 7, 8])) = 8"
    by code_simp
  have order: "map chunkId
                 (case rank_fusion (7 / 10) (3 / 10)
                         (mk_results [1, 2, 3, 4, 5]) (mk_results [4, 6, 5, 7, 8]) of
                    Inr fused \<Rightarrow> fused | Inl e \<Rightarrow> [])
               = [1, 4, 2, 5, 3, 6, 7, 8]"
    by code_simp
  have h1: "(0::rat) \<le> 7 / 10" and h2: "(0::rat) \<le> 3 / 10" and h3: "(7::rat) / 10 + 3 / 10 \<noteq> 0"
    by simp_all
  from rank_fusion_length [OF h1 h2 h3, of "mk_results [1, 2, 3, 4, 5]"
      "mk_results [4, 6, 5, 7, 8]"] c
  obtain fused where f: "rank_fusion (7 / 10) (3 / 10)
      (mk_results [1, 2, 3, 4, 5]) (mk_results [4, 6, 5, 7, 8]) = Inr fused"
    and l: "length fused = 8"
    by auto
  from order f have m: "map chunkId fused = [1, 4, 2, 5, 3, 6, 7, 8]" by simp
  show ?thesis by (rule exI [of _ fused]) (intro conjI f l m)
qed

section \<open>The generator \<^verbatim>\<open>callModel\<close>\<close>

lemma callModel_loop_yielded:
  "yielded (callModel_loop stream) = map unit_text (takeWhile streaming stream)"
  by (induction stream rule: callModel_loop.induct) (simp_all add: Let_def)

lemma callModel_loop_unread:
  "unread (callModel_loop stream) = drop 1 (dropWhile streaming stream)"
  by (induction stream rule: callModel_loop.induct) (simp_all add: Let_def)

lemma callModel_loop_raised:
  "raised (callModel_loop stream) =
     (case dropWhile streaming stream of Inl e # rest \<Rightarrow> Some e | _ \<Rightarrow> None)"
  by (induction stream rule: callModel_loop.induct) (simp_all add: Let_def)

text \<open>
  C6. The generator yields the texts of the units in the order of the stream, one for
  each unit before the first one whose \<^verbatim>\<open>done\<close> is not false (or that fails); that unit is
  the last one pulled, and everything behind it stays unread.
\<close>

theorem callModel_order:
  "yielded (callModel env context prompt)
     = map unit_text (takeWhile streaming (ollama_chat env (chat_messages context prompt)))
   \<and> unread (callModel env context prompt)
     = drop 1 (dropWhile streaming (ollama_chat env (chat_messages context prompt)))"
  by (simp add: callModel_def callModel_loop_yielded callModel_loop_unread)

text \<open>
  C9. When the stream is a run of units with \<^verbatim>\<open>done\<close> false, then a unit with \<^verbatim>\<open>done\<close> true,
  then anything, the text produced is the concatenation of the contents of the first
  run: the content of the done unit and of everything after it is dropped.
\<close>

theorem callModel_text:
  assumes "ollama_chat env (chat_messages context prompt) = map Inr before @ Inr d # after"
    and "\<forall>u \<in> set before. chunk_done u = False"
    and "chunk_done d = True"
  shows "yielded (callModel env context prompt) = map (\<lambda>u. content (chunk_message u)) before
         \<and> concat (yielded (callModel env context prompt))
             = concat (map (\<lambda>u. content (chunk_message u)) before)
         \<and> raised (callModel env context prompt) = None
         \<and> unread (callModel env context prompt) = after"
proof -
  have run: "callModel_loop (map Inr before @ Inr d # after)
               = \<lparr>yielded = map (\<lambda>u. content (chunk_message u)) before, raised = None,
                  unread = after\<rparr>"
    using assms(2)
  proof (induction before)
    case Nil
    with assms(3) show ?case by simp
  next
    case (Cons u us)
    then show ?case by simp
  qed
  with assms(1) show ?thesis by (simp add: callModel_def)
qed

theorem callModel_text_witness:
  "concat (yielded (callModel example_env ''ctx'' ''hi'')) = ''Hello''
   \<and> unread (callModel example_env ''ctx'' ''hi'') = [Inr (mk_chunk False ''more'')]"
proof -
  have h1: "ollama_chat example_env (chat_messages ''ctx'' ''hi'')
              = map Inr [mk_chunk False ''Hel'', mk_chunk False ''lo'']
                @ Inr (mk_chunk True ''!'') # [Inr (mk_chunk False ''more'')]"
    by (simp add: example_env_def)
  have h2: "\<forall>u \<in> set [mk_chunk False ''Hel'', mk_chunk False ''lo'']. chunk_done u = False"
    by (simp add: mk_chunk_def)
  have h3: "chunk_done (mk_chunk True ''!'') = True" by (simp add: mk_chunk_def)
  show ?thesis using callModel_text [OF h1 h2 h3] by (simp add: mk_chunk_def)
qed


section \<open>The conversation loop\<close>


lemma answer_query_returns:
  assumes "answer_query env query = (printed, None)"
  shows "\<exists>chunks. printed = Question query # AnswerLabel # map AnswerChunk chunks @ [AnswerEnd]"
  using assms
  by (auto simp: answer_query_def Let_def split: sum.splits option.splits)

lemma conversation_loop_prompts_first:
  "\<exists>later. fst (conversation_loop env inputs) = Prompt # later"
  by (cases inputs) (auto split: prod.splits option.splits)

lemma conversation_loop_terminator:
  assumes "lower user_input \<in> set [''quit'', ''exit'']"
  shows "conversation_loop env (user_input # rest) = ([Prompt, SessionEnded], Ended)"
  using assms by simp


lemma conversation_loop_continues:
  assumes "lower user_input \<notin> set [''quit'', ''exit'']"
    and "answer_query env user_input = (printed, None)"
  shows "conversation_loop env (user_input # rest)
           = (Prompt # printed @ fst (conversation_loop env rest),
              snd (conversation_loop env rest))"
  using assms by (simp split: prod.splits)




text \<open>
  C8 (as amended). A line that lowercases to \<^verbatim>\<open>quit\<close> or \<^verbatim>\<open>exit\<close> ends the session with the
  farewell and exit status 0. Any other line is handed to the pipeline as the query:
  when the retriever returns its candidates for it, the reranker returns the top ten of
  them and the generator ends without an exception, the loop prints the question, the
  answer label, every text the generator yields for the context of those documents, in
  order, and the end of the answer, and then prompts again.
\<close>

theorem conversation_loop_line:
  "(lower user_input \<in> set [''quit'', ''exit''] \<longrightarrow>
      conversation_loop env (user_input # rest) = ([Prompt, SessionEnded], Ended)
      \<and> exit_code (snd (conversation_loop env (user_input # rest))) = 0)
   \<and> (lower user_input \<notin> set [''quit'', ''exit'']
        \<and> combined_retriever env user_input 20 = Inr retrieved_docs
        \<and> query_doc (cross_encoder env) user_input retrieved_docs 10 = Inr top_docs
        \<and> raised (callModel env (context_text top_docs) user_input) = None \<longrightarrow>
        conversation_loop env (user_input # rest)
          = (Prompt # Question user_input # AnswerLabel
               # map AnswerChunk (yielded (callModel env (context_text top_docs) user_input))
               @ AnswerEnd # fst (conversation_loop env rest),
             snd (conversation_loop env rest))
        \<and> (\<exists>later. fst (conversation_loop env rest) = Prompt # later))"
proof (intro conjI impI)
  assume t: "lower user_input \<in> set [''quit'', ''exit'']"
  then show "conversation_loop env (user_input # rest) = ([Prompt, SessionEnded], Ended)"
    by (rule conversation_loop_terminator)
  then show "exit_code (snd (conversation_loop env (user_input # rest))) = 0" by simp
next
  assume h: "lower user_input \<notin> set [''quit'', ''exit'']
        \<and> combined_retriever env user_input 20 = Inr retrieved_docs
        \<and> query_doc (cross_encoder env) user_input retrieved_docs 10 = Inr top_docs
        \<and> raised (callModel env (context_text top_docs) user_input) = None"
  then have n: "lower user_input \<notin> set [''quit'', ''exit'']" by simp
  from h have "get_relevant_documents (cross_encoder_retriever env) user_input 10
                 = Inr top_docs"
    by (simp add: get_relevant_documents_def cross_encoder_retriever_def)
  with h have ok: "answer_query env user_input
                     = ([Question user_input, AnswerLabel]
                          @ map AnswerChunk
                              (yielded (callModel env (context_text top_docs) user_input))
                          @ [AnswerEnd], None)"
    by (simp add: answer_query_def Let_def)
  from conversation_loop_continues [OF n ok, of rest]
  show "conversation_loop env (user_input # rest)
          = (Prompt # Question user_input # AnswerLabel
               # map AnswerChunk (yielded (callModel env (context_text top_docs) user_input))
               @ AnswerEnd # fst (conversation_loop env rest),
             snd (conversation_loop env rest))"
    by simp
next
  show "\<exists>later. fst (conversation_loop env rest) = Prompt # later"
    by (rule conversation_loop_prompts_first)
qed

theorem conversation_loop_line_witness:
  "conversation_loop example_env [''QuIt'', ''unread''] = ([Prompt, SessionEnded], Ended)
   \<and> exit_code (snd (conversation_loop example_env [''QuIt'', ''unread''])) = 0
   \<and> conversation_loop example_env [''hi'', ''EXIT'']
       = ([Prompt, Question ''hi'', AnswerLabel, AnswerChunk ''Hel'', AnswerChunk ''lo'',
           AnswerEnd, Prompt, SessionEnded], Ended)"
proof -
  have t: "lower ''QuIt'' \<in> set [''quit'', ''exit'']" by code_simp
  have n: "lower ''hi'' \<notin> set [''quit'', ''exit'']" by code_simp
  have r: "combined_retriever example_env ''hi'' 20 = Inr [mk_doc 1 ''be'', mk_doc 2 ''alpha'']"
    by (simp add: example_env_def)
  have q: "query_doc (cross_encoder example_env) ''hi'' [mk_doc 1 ''be'', mk_doc 2 ''alpha''] 10
             = Inr [mk_doc 2 ''alpha'', mk_doc 1 ''be'']"
    by code_simp
  have g: "raised (callModel example_env (context_text [mk_doc 2 ''alpha'', mk_doc 1 ''be''])
                     ''hi'') = None"
    by code_simp
  have y: "yielded (callModel example_env (context_text [mk_doc 2 ''alpha'', mk_doc 1 ''be''])
                      ''hi'') = [''Hel'', ''lo'']"
    by code_simp
  have e: "conversation_loop example_env [''EXIT''] = ([Prompt, SessionEnded], Ended)"
    by code_simp
  from conversation_loop_line [where user_input = "''QuIt''" and env = example_env
      and rest = "[''unread'']"] t
  have first: "conversation_loop example_env [''QuIt'', ''unread'']
                 = ([Prompt, SessionEnded], Ended)
               \<and> exit_code (snd (conversation_loop example_env [''QuIt'', ''unread''])) = 0"
    by simp
  from conversation_loop_line [where user_input = "''hi''" and env = example_env
      and retrieved_docs = "[mk_doc 1 ''be'', mk_doc 2 ''alpha'']"
      and top_docs = "[mk_doc 2 ''alpha'', mk_doc 1 ''be'']" and rest = "[''EXIT'']"] n r q g
  have "conversation_loop example_env [''hi'', ''EXIT'']
          = (Prompt # Question ''hi'' # AnswerLabel
               # map AnswerChunk
                   (yielded (callModel example_env
                      (context_text [mk_doc 2 ''alpha'', mk_doc 1 ''be'']) ''hi''))
               @ AnswerEnd # fst (conversation_loop example_env [''EXIT'']),
             snd (conversation_loop example_env [''EXIT'']))"
    by simp
  then have second: "conversation_loop example_env [''hi'', ''EXIT'']
       = ([Prompt, Question ''hi'', AnswerLabel, AnswerChunk ''Hel'', AnswerChunk ''lo'',
           AnswerEnd, Prompt, SessionEnded], Ended)"
    by (simp only: y e fst_conv snd_conv list.map append_Cons append_Nil)
  from first second show ?thesis by (intro conjI) simp_all
qed

text \<open>
  C8, as stated, fails: with a retriever that raises, the line \<^verbatim>\<open>hello\<close> is no terminator,
  yet neither its question nor an answer label is ever printed.
\<close>

theorem conversation_loop_line_counterexample:
  "lower ''hello'' \<notin> set [''quit'', ''exit'']
   \<and> Question ''hello'' \<notin> set (fst (conversation_loop failing_env [''hello'', ''exit'']))
   \<and> AnswerLabel \<notin> set (fst (conversation_loop failing_env [''hello'', ''exit'']))"
  by code_simp

section \<open>The terminator test\<close>

lemma lower_char_eq:
  assumes "lower_char c = d"
  shows "c = d \<or> c = char_of ((of_char d :: nat) - 32)"
proof (cases "65 \<le> (of_char c :: nat) \<and> (of_char c :: nat) \<le> 90")
  case True
  with assms have d: "d = char_of ((of_char c :: nat) + 32)"
    by (simp add: lower_char_def Let_def)
  from True have "((of_char c :: nat) + 32) mod 256 = of_char c + 32" by simp
  with d have "(of_char d :: nat) = of_char c + 32" by (simp add: of_char_of)
  then have "char_of ((of_char d :: nat) - 32) = char_of (of_char c :: nat)" by simp
  then show ?thesis by simp
next
  case False
  with assms show ?thesis by (auto simp add: lower_char_def Let_def)
qed

lemma lower_char_letter:
  "lower_char c = CHR ''q'' \<longleftrightarrow> c \<in> set ''qQ''"
  "lower_char c = CHR ''u'' \<longleftrightarrow> c \<in> set ''uU''"
  "lower_char c = CHR ''i'' \<longleftrightarrow> c \<in> set ''iI''"
  "lower_char c = CHR ''t'' \<longleftrightarrow> c \<in> set ''tT''"
  "lower_char c = CHR ''e'' \<longleftrightarrow> c \<in> set ''eE''"
  "lower_char c = CHR ''x'' \<longleftrightarrow> c \<in> set ''xX''"
proof -
  have up: "char_of ((of_char CHR ''q'' :: nat) - 32) = CHR ''Q''"
    "char_of ((of_char CHR ''u'' :: nat) - 32) = CHR ''U''"
    "char_of ((of_char CHR ''i'' :: nat) - 32) = CHR ''I''"
    "char_of ((of_char CHR ''t'' :: nat) - 32) = CHR ''T''"
    "char_of ((of_char CHR ''e'' :: nat) - 32) = CHR ''E''"
    "char_of ((of_char CHR ''x'' :: nat) - 32) = CHR ''X''"
    by code_simp+
  have low: "lower_char CHR ''q'' = CHR ''q''" "lower_char CHR ''Q'' = CHR ''q''"
    "lower_char CHR ''u'' = CHR ''u''" "lower_char CHR ''U'' = CHR ''u''"
    "lower_char CHR ''i'' = CHR ''i''" "lower_char CHR ''I'' = CHR ''i''"
    "lower_char CHR ''t'' = CHR ''t''" "lower_char CHR ''T'' = CHR ''t''"
    "lower_char CHR ''e'' = CHR ''e''" "lower_char CHR ''E'' = CHR ''e''"
    "lower_char CHR ''x'' = CHR ''x''" "lower_char CHR ''X'' = CHR ''x''"
    by code_simp+
  show "lower_char c = CHR ''q'' \<longleftrightarrow> c \<in> set ''qQ''"
    using lower_char_eq [of c "CHR ''q''"] up(1) low(1,2) by auto
  show "lower_char c = CHR ''u'' \<longleftrightarrow> c \<in> set ''uU''"
    using lower_char_eq [of c "CHR ''u''"] up(2) low(3,4) by auto
  show "lower_char c = CHR ''i'' \<longleftrightarrow> c \<in> set ''iI''"
    using lower_char_eq [of c "CHR ''i''"] up(3) low(5,6) by auto
  show "lower_char c = CHR ''t'' \<longleftrightarrow> c \<in> set ''tT''"
    using lower_char_eq [of c "CHR ''t''"] up(4) low(7,8) by auto
  show "lower_char c = CHR ''e'' \<longleftrightarrow> c \<in> set ''eE''"
    using lower_char_eq [of c "CHR ''e''"] up(5) low(9,10) by auto
  show "lower_char c = CHR ''x'' \<longleftrightarrow> c \<in> set ''xX''"
    using lower_char_eq [of c "CHR ''x''"] up(6) low(11,12) by auto
qed

lemma map_eq_four:
  "map f xs = [p, q, r, s] \<longleftrightarrow> (\<exists>a b c d. xs = [a, b, c, d] \<and> f a = p \<and> f b = q \<and> f c = r \<and> f d = s)"
  by (auto simp: map_eq_Cons_conv)

lemma lower_is_quit:
  "lower user_input = ''quit'' \<longleftrightarrow>
     (\<exists>a b c d. user_input = [a, b, c, d] \<and> a \<in> set ''qQ'' \<and> b \<in> set ''uU''
                 \<and> c \<in> set ''iI'' \<and> d \<in> set ''tT'')"
  unfolding lower_def map_eq_four lower_char_letter ..

lemma lower_is_exit:
  "lower user_input = ''exit'' \<longleftrightarrow>
     (\<exists>a b c d. user_input = [a, b, c, d] \<and> a \<in> set ''eE'' \<and> b \<in> set ''xX''
                 \<and> c \<in> set ''iI'' \<and> d \<in> set ''tT'')"
  unfolding lower_def map_eq_four lower_char_letter ..

text \<open>
  C10. The test lowercases the line as it was typed. A line is a terminator exactly when
  it has four characters that are, one by one, the letters of \<^verbatim>\<open>quit\<close> or of \<^verbatim>\<open>exit\<close> in
  either case; every other line, such as one with a blank before or after the word, is
  handed to \<open>answer_query\<close> unchanged.
\<close>

theorem terminator_is_untrimmed:
  "(lower user_input \<in> set [''quit'', ''exit''] \<longleftrightarrow>
      (\<exists>a b c d. user_input = [a, b, c, d] \<and> c \<in> set ''iI'' \<and> d \<in> set ''tT''
         \<and> (a \<in> set ''qQ'' \<and> b \<in> set ''uU'' \<or> a \<in> set ''eE'' \<and> b \<in> set ''xX'')))
   \<and> (lower user_input \<notin> set [''quit'', ''exit''] \<longrightarrow>
        conversation_loop env (user_input # rest)
          = (case answer_query env user_input of
               (printed, Some e) \<Rightarrow> (Prompt # printed, Raised e)
             | (printed, None) \<Rightarrow>
                 (Prompt # printed @ fst (conversation_loop env rest),
                  snd (conversation_loop env rest))))"
proof
  have "lower user_input \<in> set [''quit'', ''exit'']
          \<longleftrightarrow> lower user_input = ''quit'' \<or> lower user_input = ''exit''"
    by simp
  also have "\<dots> \<longleftrightarrow>
      (\<exists>a b c d. user_input = [a, b, c, d] \<and> c \<in> set ''iI'' \<and> d \<in> set ''tT''
         \<and> (a \<in> set ''qQ'' \<and> b \<in> set ''uU'' \<or> a \<in> set ''eE'' \<and> b \<in> set ''xX''))"
    unfolding lower_is_quit lower_is_exit by blast
  finally show "lower user_input \<in> set [''quit'', ''exit''] \<longleftrightarrow>
      (\<exists>a b c d. user_input = [a, b, c, d] \<and> c \<in> set ''iI'' \<and> d \<in> set ''tT''
         \<and> (a \<in> set ''qQ'' \<and> b \<in> set ''uU'' \<or> a \<in> set ''eE'' \<and> b \<in> set ''xX''))" .
next
  show "lower user_input \<notin> set [''quit'', ''exit''] \<longrightarrow>
        conversation_loop env (user_input # rest)
          = (case answer_query env user_input of
               (printed, Some e) \<Rightarrow> (Prompt # printed, Raised e)
             | (printed, None) \<Rightarrow>
                 (Prompt # printed @ fst (conversation_loop env rest),
                  snd (conversation_loop env rest)))"
    by (simp split: prod.splits option.splits)
qed

theorem terminator_is_untrimmed_witness:
  "lower '' quit'' \<notin> set [''quit'', ''exit'']
   \<and> lower ''exit '' \<notin> set [''quit'', ''exit'']
   \<and> conversation_loop example_env ['' quit'']
       = ([Prompt, Question '' quit'', AnswerLabel, AnswerChunk ''Hel'', AnswerChunk ''lo'',
           AnswerEnd, Prompt], Raised EOFError)"
proof -
  have n1: "lower '' quit'' \<notin> set [''quit'', ''exit'']"
    using terminator_is_untrimmed [of "'' quit''" example_env "[]"] by simp
  have n2: "lower ''exit '' \<notin> set [''quit'', ''exit'']"
    using terminator_is_untrimmed [of "''exit ''" example_env "[]"] by simp
  have a: "answer_query example_env '' quit''
             = ([Question '' quit'', AnswerLabel, AnswerChunk ''Hel'', AnswerChunk ''lo'',
                 AnswerEnd], None)"
    by code_simp
  show ?thesis
    using terminator_is_untrimmed [of "'' quit''" example_env "[]"] n1 n2 a by simp
qed

end
